theory Spec2Isabelle
  imports Main
begin

section \<open>Tic Tac Toe: the data model of App.js\<close>

text \<open>
  A square of the board holds \<open>null\<close>, \<open>"X"\<close> or \<open>"O"\<close>: \<open>None\<close> is
  \<open>null\<close>, and \<open>mark_str\<close> gives the string of a mark. The board is
  \<open>Array(9).fill(null)\<close>, a list of squares.
\<close>

datatype mark = MarkX | MarkO

definition mark_str :: "mark \<Rightarrow> string" where
  "mark_str m = (case m of MarkX \<Rightarrow> ''X'' | MarkO \<Rightarrow> ''O'')"

type_synonym board = "mark option list"

type_synonym line = "nat \<times> nat \<times> nat"

text \<open>
  \<open>b[i]\<close>: reading beyond the end of a JavaScript array gives \<open>undefined\<close>,
  which is falsy like \<open>null\<close> and equal to no mark.
\<close>

definition cell :: "board \<Rightarrow> nat \<Rightarrow> mark option" where
  "cell b i = (if i < length b then b ! i else None)"

text \<open>The constant \<open>lines\<close> of \<open>calculateWinner\<close> (lines 46-50), in its order.\<close>

definition lines :: "line list" where
  "lines = [(0, 1, 2), (3, 4, 5), (6, 7, 8),
            (0, 3, 6), (1, 4, 7), (2, 5, 8),
            (0, 4, 8), (2, 4, 6)]"

text \<open>
  What \<open>calculateWinner\<close> returns: \<open>{ winner: b[a], line }\<close> is \<open>Win\<close>,
  \<open>{ winner: "draw", line: null }\<close> is \<open>Draw\<close>, and \<open>null\<close> is \<open>None\<close>.
\<close>

datatype result = Win mark line | Draw

text \<open>
  The loop \<open>for (let line of lines)\<close> (lines 51-56), over the rest of the list:
  \<open>b[a] && b[a] === b[b2] && b[a] === b[c]\<close> holds when \<open>b[a]\<close> is a mark
  and the two other squares hold the same mark; the first such line is returned.
\<close>

fun scanLines :: "board \<Rightarrow> line list \<Rightarrow> result option" where
  "scanLines b [] = None"
| "scanLines b ((a, b2, c) # rest) =
     (case cell b a of
        None \<Rightarrow> scanLines b rest
      | Some m \<Rightarrow>
          if cell b a = cell b b2 \<and> cell b a = cell b c then Some (Win m (a, b2, c))
          else scanLines b rest)"

text \<open>\<open>calculateWinner\<close> (lines 45-59); \<open>b.every(Boolean)\<close> is \<open>list_all\<close>.\<close>

definition calculateWinner :: "board \<Rightarrow> result option" where
  "calculateWinner b =
     (case scanLines b lines of
        Some r \<Rightarrow> Some r
      | None \<Rightarrow> if list_all (\<lambda>v. v \<noteq> None) b then Some Draw else None)"

text \<open>
  The Tic Tac Toe state of the component: the \<open>useState\<close> variables of lines
  25-29. \<open>status\<close> is \<open>""\<close> while the game runs and \<open>"X wins!"\<close>,
  \<open>"O wins!"\<close> or \<open>"Draw!"\<close> once it is over.
\<close>

datatype mode = Ai | Local

record ttt_state =
  gameMode :: "mode option"
  board :: board
  xIsNext :: bool
  status :: string
  animWinLine :: "line option"

text \<open>
  \<open>newBoard[idx] = v\<close> on a copy of the board. Every caller passes an index of
  the board (\<open>renderSquare(r * 3 + c)\<close> with \<open>r\<close>, \<open>c\<close> in 0..2, and
  \<open>makeAIMove\<close> picks an index of an empty square). Beyond the end JavaScript
  grows the array up to \<open>idx\<close>; the squares in between are left unset
  (they read as \<open>undefined\<close>, and \<open>every\<close> passes over them), written
  \<open>None\<close> here as \<open>null\<close> is. The theorems below about a write take
  \<open>idx\<close> inside the board.
\<close>

definition js_assign :: "board \<Rightarrow> nat \<Rightarrow> mark option \<Rightarrow> board" where
  "js_assign b idx v =
     (if idx < length b then b[idx := v] else b @ replicate (idx - length b) None @ [v])"

text \<open>
  \<open>handleClick\<close> (lines 61-78) is a closure of one render of the component:
  the \<open>board\<close>, \<open>status\<close> and \<open>xIsNext\<close> it reads are those of the render
  that created it, the state \<open>r\<close>. Its setters (\<open>setBoard(newBoard)\<close>,
  \<open>setStatus(...)\<close>, \<open>setAnimWinLine(...)\<close>, \<open>setXIsNext(!xIsNext)\<close>) store
  the values it computed from \<open>r\<close> into the state the component has when the
  call runs, the state \<open>s\<close>; the fields it does not set stay as they are in
  \<open>s\<close>. A string is falsy when it is empty, so the guard
  \<open>board[idx] || status\<close> is: the square of \<open>r\<close> holds a mark, or the
  \<open>status\<close> of \<open>r\<close> is not \<open>""\<close>.
\<close>

definition handleClick :: "nat \<Rightarrow> ttt_state \<Rightarrow> ttt_state \<Rightarrow> ttt_state" where
  "handleClick idx r s =
     (if cell (board r) idx \<noteq> None \<or> status r \<noteq> [] then s
      else
        let newBoard = js_assign (board r) idx (Some (if xIsNext r then MarkX else MarkO))
        in case calculateWinner newBoard of
             Some Draw \<Rightarrow> s\<lparr>board := newBoard, status := ''Draw!''\<rparr>
           | Some (Win w l) \<Rightarrow>
               s\<lparr>board := newBoard, status := mark_str w @ '' wins!'', animWinLine := Some l\<rparr>
           | None \<Rightarrow> s\<lparr>board := newBoard, xIsNext := \<not> xIsNext r\<rparr>)"

text \<open>
  A click on a square (\<open>onClick={() => handleClick(i)}\<close>, line 110) runs the
  closure of the render on the screen, which shows the current state.
\<close>

definition click :: "nat \<Rightarrow> ttt_state \<Rightarrow> ttt_state" where
  "click idx s = handleClick idx s s"

text \<open>
  \<open>makeAIMove\<close> (lines 80-88) is called by the effect of lines 90-95 after a
  render \<open>r\<close>. The squares without a mark are
  \<open>board.map((v, i) => (v ? null : i)).filter((v) => v !== null)\<close>. The timer
  it starts runs 500 ms later, when the component is in the state \<open>s\<close>, and
  calls the \<open>handleClick\<close> of the render \<open>r\<close>; no later render stops the
  timer. \<open>k\<close> is \<open>Math.floor(Math.random() * empty.length)\<close>, an index of
  \<open>empty\<close>.
\<close>

definition empty_squares :: "board \<Rightarrow> nat list" where
  "empty_squares b =
     List.map_filter (\<lambda>(v, i). if v \<noteq> None then None else Some i) (zip b [0..<length b])"

definition makeAIMove :: "nat \<Rightarrow> ttt_state \<Rightarrow> ttt_state \<Rightarrow> ttt_state" where
  "makeAIMove k r s =
     (if status r \<noteq> [] \<or> gameMode r \<noteq> Some Ai \<or> xIsNext r then s
      else
        let empty = empty_squares (board r)
        in if length empty = 0 then s else handleClick (empty ! k) r s)"

text \<open>\<open>startNewGame\<close> (lines 35-42) and \<open>restartGame\<close> (lines 121-126).\<close>

definition startNewGame :: "mode \<Rightarrow> ttt_state \<Rightarrow> ttt_state" where
  "startNewGame m s =
     s\<lparr>gameMode := Some m, board := replicate 9 None, xIsNext := True, status := [],
       animWinLine := None\<rparr>"

definition restartGame :: "ttt_state \<Rightarrow> ttt_state" where
  "restartGame s =
     s\<lparr>board := replicate 9 None, xIsNext := True, status := [], animWinLine := None\<rparr>"

text \<open>
  The test of line 53 on one line, \<open>b[a] && b[a] === b[b2] && b[a] === b[c]\<close>,
  as a predicate of its own (what \<open>scanLines\<close> checks at each line).
\<close>

definition three_equal :: "board \<Rightarrow> line \<Rightarrow> bool" where
  "three_equal b l =
     (case l of (a, b2, c) \<Rightarrow> cell b a \<noteq> None \<and> cell b a = cell b b2 \<and> cell b a = cell b c)"

text \<open>
  The three-in-a-row condition in the words of the specification: the three
  squares of a line hold the same mark \<open>m\<close>.
\<close>

definition holds_line :: "board \<Rightarrow> line \<Rightarrow> mark \<Rightarrow> bool" where
  "holds_line b l m =
     (case l of (a, b2, c) \<Rightarrow> cell b a = Some m \<and> cell b b2 = Some m \<and> cell b c = Some m)"

section \<open>Snake and Ladder: the data model of SnakeLadderGame.js\<close>

text \<open>
  The component keeps one state object (\<open>initialState\<close>, lines 49-56):
  \<open>positions\<close> is a two-element array of numbers, \<open>turn\<close> is 0 or 1,
  \<open>dice\<close> and \<open>winner\<close> are \<open>null\<close> or a number, \<open>status\<close> is a
  string. \<open>null\<close> is \<open>None\<close>. The only value ever stored in \<open>turn\<close> is
  0 or 1 and \<open>positions\<close> always holds two entries, so every array access
  \<open>positions[turn]\<close> of the component is in range; the theorems below that
  depend on it state it as a hypothesis (\<open>two_players\<close>).
\<close>

record sl_state =
  positions :: "int list"
  turn :: nat
  rolling :: bool
  dice :: "int option"
  status :: string
  winner :: "nat option"

definition WIN_CELL :: int where
  "WIN_CELL = 100"

text \<open>\<open>BOARD_PORTALS\<close> (lines 13-18): ladders first, then snakes.\<close>

definition BOARD_PORTALS :: "int \<rightharpoonup> int" where
  "BOARD_PORTALS = map_of
     [(2, 23), (6, 45), (20, 59), (52, 72), (57, 96), (71, 92),
      (43, 17), (50, 5), (56, 8), (73, 15), (84, 58), (87, 49), (98, 40)]"

definition initialState :: sl_state where
  "initialState =
     \<lparr>positions = [1, 1], turn = 0, rolling = False, dice = None, status = [], winner = None\<rparr>"

text \<open>\<open>newGame\<close> (lines 62-64) replaces the state by \<open>initialState\<close>.\<close>

definition newGame :: "sl_state \<Rightarrow> sl_state" where
  "newGame s = initialState"

text \<open>
  The expression \<open>table[pos] || pos\<close> of line 71, over any table: a missing key
  reads \<open>undefined\<close>, and \<open>||\<close> takes its right operand when the left one is
  falsy, which for a number means 0.
\<close>

definition portal_or :: "(int \<rightharpoonup> int) \<Rightarrow> int \<Rightarrow> int" where
  "portal_or table pos = (case table pos of None \<Rightarrow> pos | Some q \<Rightarrow> if q \<noteq> 0 then q else pos)"

text \<open>
  \<open>resolvePortals\<close> (lines 67-74):
  \<^verbatim>\<open>do { prev = pos; pos = BOARD_PORTALS[pos] || pos; } while (prev !== pos); return pos;\<close>
  The body runs once; when it changed \<open>pos\<close> the loop runs again from the new
  value, otherwise the (unchanged) value is returned. The loop ends because no
  destination of \<open>BOARD_PORTALS\<close> is itself a source.
\<close>

function resolvePortals :: "int \<Rightarrow> int" where
  "resolvePortals pos =
     (if pos \<noteq> portal_or BOARD_PORTALS pos
      then resolvePortals (portal_or BOARD_PORTALS pos)
      else portal_or BOARD_PORTALS pos)"
  by pat_completeness auto
termination
proof (relation "measure (\<lambda>pos. if BOARD_PORTALS pos = None then 0 else 1)")
  show "wf (measure (\<lambda>pos. if BOARD_PORTALS pos = None then 0 else (1::nat)))"
    by simp
next
  fix pos :: int
  assume changed: "pos \<noteq> portal_or BOARD_PORTALS pos"
  then obtain q where src: "BOARD_PORTALS pos = Some q" and q: "portal_or BOARD_PORTALS pos = q"
    by (auto simp: portal_or_def split: option.splits if_splits)
  from src have "BOARD_PORTALS q = None"
    by (simp add: BOARD_PORTALS_def split: if_splits)
  with src q
  show "(portal_or BOARD_PORTALS pos, pos)
          \<in> measure (\<lambda>pos. if BOARD_PORTALS pos = None then 0 else (1::nat))"
    by simp
qed

declare resolvePortals.simps [simp del]

text \<open>
  The same loop over an arbitrary portal table. Nothing in the loop bounds the
  number of rounds, so over a table with a cycle it need not return: not
  returning is the value \<open>None\<close>.
\<close>

partial_function (option) resolvePortals_over :: "(int \<rightharpoonup> int) \<Rightarrow> int \<Rightarrow> int option" where
  "resolvePortals_over table pos =
     (if pos \<noteq> portal_or table pos
      then resolvePortals_over table (portal_or table pos)
      else Some (portal_or table pos))"

definition cyclic_table :: "int \<rightharpoonup> int" where
  "cyclic_table = map_of [(1, 2), (2, 1)]"

text \<open>
  Truthiness of \<open>state.winner\<close>, which is \<open>null\<close> or a player index:
  \<open>null\<close> is falsy, and so is the number 0.
\<close>

definition truthy :: "nat option \<Rightarrow> bool" where
  "truthy w = (case w of None \<Rightarrow> False | Some n \<Rightarrow> n \<noteq> 0)"

text \<open>
  \<open>handleRollDice\<close> runs in three steps. The first is synchronous (lines
  78-79): the guard \<open>if (state.rolling || state.winner) return\<close> and the update
  \<open>{ ...s, rolling: true, dice: null }\<close>. The guard reads the state of the
  last render and the update is applied to the current state; here both are
  the one state \<open>s\<close>.
\<close>

definition handleRollDice :: "sl_state \<Rightarrow> sl_state" where
  "handleRollDice s =
     (if rolling s \<or> truthy (winner s) then s else s\<lparr>rolling := True, dice := None\<rparr>)"

text \<open>Decimal digits of a number, for the template literal of line 94.\<close>

definition digit_char :: "nat \<Rightarrow> char" where
  "digit_char n = ''0123456789'' ! n"

function string_of_nat :: "nat \<Rightarrow> string" where
  "string_of_nat n =
     (if n < 10 then [digit_char n] else string_of_nat (n div 10) @ [digit_char (n mod 10)])"
  by pat_completeness auto
termination
  by (relation "measure (\<lambda>n. n)") auto

declare string_of_nat.simps [simp del]

text \<open>
  The second step is the state update of lines 82-104 (the specification's
  \<open>resolveRoll\<close>), run by the first timer with the rolled value \<open>d\<close>
  (\<open>1 + Math.floor(Math.random() * 6)\<close>, a number from 1 to 6). The kept or
  advanced position \<open>cand\<close> of line 85 goes through \<open>resolvePortals\<close> in
  either case (line 86).
\<close>

definition resolveRoll :: "int \<Rightarrow> sl_state \<Rightarrow> sl_state" where
  "resolveRoll d prev =
     (let i = turn prev;
          npos = positions prev;
          cand = (if npos ! i + d \<le> WIN_CELL then npos ! i + d else npos ! i);
          newPos = resolvePortals cand;
          win = (if newPos = WIN_CELL then Some i else None);
          st = (if newPos = WIN_CELL then ''Player '' @ string_of_nat (i + 1) @ '' wins!'' else [])
      in prev\<lparr>positions := npos[i := newPos], rolling := False, dice := Some d,
              status := (if win \<noteq> None then st else []), winner := win\<rparr>)"

text \<open>
  The third step is the update of line 106, run by the second timer:
  \<open>s.winner !== null ? s : { ...s, turn: s.turn === 0 ? 1 : 0 }\<close>.
\<close>

definition advanceTurn :: "sl_state \<Rightarrow> sl_state" where
  "advanceTurn s = (if winner s \<noteq> None then s else s\<lparr>turn := (if turn s = 0 then 1 else 0)\<rparr>)"

text \<open>
  One whole roll with the value \<open>d\<close>. When the guard of line 78 returns, no
  timer is started and nothing happens; otherwise the three steps run in their
  order.
\<close>

definition roll :: "int \<Rightarrow> sl_state \<Rightarrow> sl_state" where
  "roll d s =
     (if rolling s \<or> truthy (winner s) then s
      else advanceTurn (resolveRoll d (handleRollDice s)))"

text \<open>
  The states the component can be in: the initial one, and whatever a reset or
  one of the three steps of a roll (with a value from 1 to 6) makes of a state
  it can be in. The steps are taken one by one, so every interleaving of the
  timers is covered.
\<close>

inductive reachable :: "sl_state \<Rightarrow> bool" where
  start: "reachable initialState"
| reset: "reachable s \<Longrightarrow> reachable (newGame s)"
| roll_started: "reachable s \<Longrightarrow> reachable (handleRollDice s)"
| roll_resolved: "reachable s \<Longrightarrow> 1 \<le> d \<Longrightarrow> d \<le> 6 \<Longrightarrow> reachable (resolveRoll d s)"
| turn_advanced: "reachable s \<Longrightarrow> reachable (advanceTurn s)"

text \<open>A state with two positions whose \<open>turn\<close> is the index of one of them.\<close>

definition two_players :: "sl_state \<Rightarrow> bool" where
  "two_players s = (length (positions s) = 2 \<and> turn s < 2)"

text \<open>
  The invariant of the positions: two of them, \<open>turn\<close> the index of one, and
  each a cell from 1 to 100 that is no source of a portal.
\<close>

definition resting :: "sl_state \<Rightarrow> bool" where
  "resting s = (length (positions s) = 2 \<and> turn s < 2
     \<and> (\<forall>p \<in> set (positions s). 1 \<le> p \<and> p \<le> 100 \<and> BOARD_PORTALS p = None))"

section \<open>Tic Tac Toe: the states of two games against the computer\<close>

text \<open>
  The values the \<open>useState\<close> calls of lines 25-29 start with.
\<close>

definition ttt_initial :: ttt_state where
  "ttt_initial =
     \<lparr>gameMode = None, board = replicate 9 None, xIsNext = True, ttt_state.status = [],
      animWinLine = None\<rparr>"

text \<open>
  The timer of \<open>makeAIMove\<close> when no other move was made during its
  500 ms: the render that started it still shows the current state.
\<close>

definition ai_reply :: "nat \<Rightarrow> ttt_state \<Rightarrow> ttt_state" where
  "ai_reply k s = makeAIMove k s s"

text \<open>
  A game in which the player clicks once more while the timer of the computer
  is running: X on square 0 (the computer is to move and starts its timer); a
  second click, on square 1, puts O there since \<open>xIsNext\<close> is false; then
  the timer runs the \<open>handleClick\<close> of the render that showed the first
  state, with square 4.
\<close>

definition x_on_0 :: ttt_state where
  "x_on_0 =
     \<lparr>gameMode = Some Ai,
      board = [Some MarkX, None, None, None, None, None, None, None, None],
      xIsNext = False, ttt_state.status = [], animWinLine = None\<rparr>"

definition o_on_1 :: ttt_state where
  "o_on_1 =
     \<lparr>gameMode = Some Ai,
      board = [Some MarkX, Some MarkO, None, None, None, None, None, None, None],
      xIsNext = True, ttt_state.status = [], animWinLine = None\<rparr>"

definition late_o_on_4 :: ttt_state where
  "late_o_on_4 =
     \<lparr>gameMode = Some Ai,
      board = [Some MarkX, None, None, None, Some MarkO, None, None, None, None],
      xIsNext = True, ttt_state.status = [], animWinLine = None\<rparr>"

text \<open>
  A game in which that second click ends the game: X on 0, 1 and 8, O on 3 and
  4, the computer to move and its timer running; a click on square 5 puts the
  third O in the middle row; then the timer runs with square 2.
\<close>

definition ai_to_move :: ttt_state where
  "ai_to_move =
     \<lparr>gameMode = Some Ai,
      board = [Some MarkX, Some MarkX, None, Some MarkO, Some MarkO, None, None, None, Some MarkX],
      xIsNext = False, ttt_state.status = [], animWinLine = None\<rparr>"

definition o_has_won :: ttt_state where
  "o_has_won =
     \<lparr>gameMode = Some Ai,
      board = [Some MarkX, Some MarkX, None, Some MarkO, Some MarkO, Some MarkO, None, None,
               Some MarkX],
      xIsNext = False, ttt_state.status = ''O wins!'', animWinLine = Some (3, 4, 5)\<rparr>"

definition late_o_on_2 :: ttt_state where
  "late_o_on_2 =
     \<lparr>gameMode = Some Ai,
      board = [Some MarkX, Some MarkX, Some MarkO, Some MarkO, Some MarkO, None, None, None,
               Some MarkX],
      xIsNext = True, ttt_state.status = ''O wins!'', animWinLine = Some (3, 4, 5)\<rparr>"

section \<open>Tic Tac Toe: \<open>calculateWinner\<close>\<close>

text \<open>
  \<open>scanLines\<close> returns the first line of the list whose squares pass the
  test of line 53, with the mark of its first square.
\<close>

lemma three_equal_holds: "three_equal b l \<longleftrightarrow> (\<exists>m. holds_line b l m)"
  by (cases l) (auto simp: three_equal_def holds_line_def)

lemma holds_line_first: "holds_line b l m \<Longrightarrow> cell b (fst l) = Some m"
  by (cases l) (simp add: holds_line_def)

lemma scanLines_find:
  "scanLines b ls =
     (case find (three_equal b) ls of
        None \<Rightarrow> None
      | Some l \<Rightarrow> Some (Win (the (cell b (fst l))) l))"
proof (induction ls)
  case Nil
  show ?case by simp
next
  case (Cons l ls)
  obtain a b2 c where l: "l = (a, b2, c)" by (cases l) auto
  show ?case
  proof (cases "cell b a")
    case None
    then have "\<not> three_equal b l" by (simp add: three_equal_def l)
    with None Cons.IH show ?thesis by (simp add: l)
  next
    case (Some m)
    show ?thesis
    proof (cases "cell b a = cell b b2 \<and> cell b a = cell b c")
      case True
      with Some have "three_equal b l" by (auto simp: three_equal_def l)
      with Some True show ?thesis by (auto simp: l)
    next
      case False
      then have "\<not> three_equal b l" by (auto simp: three_equal_def l)
      with Some False Cons.IH show ?thesis by (auto simp: l)
    qed
  qed
qed

lemma scanLines_None: "scanLines b ls = None \<longleftrightarrow> (\<forall>l \<in> set ls. \<forall>m. \<not> holds_line b l m)"
proof -
  have "scanLines b ls = None \<longleftrightarrow> find (three_equal b) ls = None"
    by (simp add: scanLines_find split: option.splits)
  also have "\<dots> \<longleftrightarrow> (\<forall>l \<in> set ls. \<not> three_equal b l)"
    by (auto simp: find_None_iff)
  finally show ?thesis by (simp add: three_equal_holds)
qed

lemma scanLines_Win:
  "scanLines b ls = Some (Win m l) \<longleftrightarrow>
     (\<exists>i<length ls. ls ! i = l \<and> holds_line b l m \<and> (\<forall>j<i. \<forall>m'. \<not> holds_line b (ls ! j) m'))"
proof
  assume "scanLines b ls = Some (Win m l)"
  then have f: "find (three_equal b) ls = Some l" and m: "m = the (cell b (fst l))"
    by (auto simp: scanLines_find split: option.splits)
  from f obtain i where i: "i < length ls" "ls ! i = l" "three_equal b l"
    "\<forall>j<i. \<not> three_equal b (ls ! j)"
    by (auto simp: find_Some_iff)
  from i(3) obtain m0 where m0: "holds_line b l m0" by (auto simp: three_equal_holds)
  with m have "m = m0" by (simp add: holds_line_first)
  with m0 i show "\<exists>i<length ls. ls ! i = l \<and> holds_line b l m
      \<and> (\<forall>j<i. \<forall>m'. \<not> holds_line b (ls ! j) m')"
    by (auto simp: three_equal_holds)
next
  assume "\<exists>i<length ls. ls ! i = l \<and> holds_line b l m
      \<and> (\<forall>j<i. \<forall>m'. \<not> holds_line b (ls ! j) m')"
  then obtain i where i: "i < length ls" "ls ! i = l" "holds_line b l m"
    "\<forall>j<i. \<forall>m'. \<not> holds_line b (ls ! j) m'"
    by blast
  then have "\<exists>i<length ls. three_equal b (ls ! i) \<and> l = ls ! i \<and> (\<forall>j<i. \<not> three_equal b (ls ! j))"
    by (auto simp: three_equal_holds)
  then have "find (three_equal b) ls = Some l"
    by (simp only: find_Some_iff)
  with holds_line_first [OF i(3)] show "scanLines b ls = Some (Win m l)"
    by (simp add: scanLines_find)
qed

lemma scanLines_not_Draw: "scanLines b ls \<noteq> Some Draw"
  by (simp add: scanLines_find split: option.splits)

lemma scanLines_Some_Draw: "scanLines b ls = Some r \<Longrightarrow> r \<noteq> Draw"
  using scanLines_not_Draw [of b ls] by auto

lemma every_filled: "length b = 9 \<Longrightarrow> list_all (\<lambda>v. v \<noteq> None) b \<longleftrightarrow> (\<forall>i<9. cell b i \<noteq> None)"
  by (auto simp: list_all_length cell_def)

text \<open>
  C2. For every board of 9 squares, \<open>calculateWinner\<close> (the specification's
  \<open>evaluateOutcome\<close>) returns a win with mark \<open>m\<close> and line \<open>l\<close> exactly
  when \<open>l\<close> is the first of the 8 lines, in the order rows, columns,
  diagonals, whose three squares hold the same mark, and \<open>m\<close> is that mark;
  so it returns a win exactly when at least one line holds three equal marks.
  It returns a draw exactly when no line does and all 9 squares are filled, and
  \<open>null\<close> (in progress) exactly when no line does and a square is empty.
\<close>

theorem calculateWinner_outcome:
  assumes "length b = 9"
  shows "lines = [(0, 1, 2), (3, 4, 5), (6, 7, 8), (0, 3, 6), (1, 4, 7), (2, 5, 8),
                 (0, 4, 8), (2, 4, 6)]
       \<and> (calculateWinner b = Some (Win m l) \<longleftrightarrow>
            (\<exists>i<length lines. lines ! i = l \<and> holds_line b l m
               \<and> (\<forall>j<i. \<forall>m'. \<not> holds_line b (lines ! j) m')))
       \<and> ((\<exists>m l. calculateWinner b = Some (Win m l)) \<longleftrightarrow>
            (\<exists>l \<in> set lines. \<exists>m. holds_line b l m))
       \<and> (calculateWinner b = Some Draw \<longleftrightarrow>
            (\<forall>l \<in> set lines. \<forall>m. \<not> holds_line b l m) \<and> (\<forall>i<9. cell b i \<noteq> None))
       \<and> (calculateWinner b = None \<longleftrightarrow>
            (\<forall>l \<in> set lines. \<forall>m. \<not> holds_line b l m) \<and> (\<exists>i<9. cell b i = None))"
proof -
  have win: "calculateWinner b = Some (Win m l) \<longleftrightarrow> scanLines b lines = Some (Win m l)" for m l
    by (simp add: calculateWinner_def split: option.splits)
  have draw: "calculateWinner b = Some Draw \<longleftrightarrow>
      scanLines b lines = None \<and> list_all (\<lambda>v. v \<noteq> None) b"
    by (auto simp: calculateWinner_def split: option.splits dest: scanLines_Some_Draw)
  have none: "calculateWinner b = None \<longleftrightarrow>
      scanLines b lines = None \<and> \<not> list_all (\<lambda>v. v \<noteq> None) b"
    by (simp add: calculateWinner_def split: option.splits)
  have some: "(\<exists>m l. scanLines b lines = Some (Win m l)) \<longleftrightarrow> scanLines b lines \<noteq> None"
  proof (cases "scanLines b lines")
    case None
    then show ?thesis by simp
  next
    case (Some r)
    with scanLines_not_Draw [of b lines] show ?thesis by (cases r) auto
  qed
  have c1: "calculateWinner b = Some (Win m l) \<longleftrightarrow>
            (\<exists>i<length lines. lines ! i = l \<and> holds_line b l m
               \<and> (\<forall>j<i. \<forall>m'. \<not> holds_line b (lines ! j) m'))"
    unfolding win by (rule scanLines_Win)
  have c2: "(\<exists>m l. calculateWinner b = Some (Win m l)) \<longleftrightarrow>
            (\<exists>l \<in> set lines. \<exists>m. holds_line b l m)"
    unfolding win some scanLines_None by blast
  have c3: "calculateWinner b = Some Draw \<longleftrightarrow>
            (\<forall>l \<in> set lines. \<forall>m. \<not> holds_line b l m) \<and> (\<forall>i<9. cell b i \<noteq> None)"
    unfolding draw scanLines_None every_filled [OF assms] ..
  have c4: "calculateWinner b = None \<longleftrightarrow>
            (\<forall>l \<in> set lines. \<forall>m. \<not> holds_line b l m) \<and> (\<exists>i<9. cell b i = None)"
    unfolding none scanLines_None every_filled [OF assms] by auto
  have c0: "lines = [(0, 1, 2), (3, 4, 5), (6, 7, 8), (0, 3, 6), (1, 4, 7), (2, 5, 8),
                     (0, 4, 8), (2, 4, 6)]"
    by (simp add: lines_def)
  from c0 c1 c2 c3 c4 show ?thesis by blast
qed

text \<open>
  The theorem on three boards: one where the first row and the first column
  are both full of X (the row comes first), a full board without a line, and a
  board without a line that has an empty square.
\<close>

theorem calculateWinner_outcome_witness:
  "length [Some MarkX, Some MarkX, Some MarkX,
           Some MarkX, Some MarkO, Some MarkO,
           Some MarkX, Some MarkO, None] = 9
   \<and> holds_line [Some MarkX, Some MarkX, Some MarkX,
                 Some MarkX, Some MarkO, Some MarkO,
                 Some MarkX, Some MarkO, None] (0, 3, 6) MarkX
   \<and> calculateWinner [Some MarkX, Some MarkX, Some MarkX,
                      Some MarkX, Some MarkO, Some MarkO,
                      Some MarkX, Some MarkO, None] = Some (Win MarkX (0, 1, 2))
   \<and> calculateWinner [Some MarkX, Some MarkO, Some MarkX,
                      Some MarkX, Some MarkO, Some MarkO,
                      Some MarkO, Some MarkX, Some MarkX] = Some Draw
   \<and> calculateWinner [Some MarkX, Some MarkO, Some MarkX,
                      Some MarkX, Some MarkO, Some MarkO,
                      Some MarkO, Some MarkX, None] = None"
proof -
  let ?w = "[Some MarkX, Some MarkX, Some MarkX,
             Some MarkX, Some MarkO, Some MarkO,
             Some MarkX, Some MarkO, None]"
  let ?d = "[Some MarkX, Some MarkO, Some MarkX,
             Some MarkX, Some MarkO, Some MarkO,
             Some MarkO, Some MarkX, Some MarkX]"
  let ?p = "[Some MarkX, Some MarkO, Some MarkX,
             Some MarkX, Some MarkO, Some MarkO,
             Some MarkO, Some MarkX, None]"
  have col: "holds_line ?w (0, 3, 6) MarkX"
    by (simp add: holds_line_def cell_def)
  have "0 < length lines \<and> lines ! 0 = (0, 1, 2) \<and> holds_line ?w (0, 1, 2) MarkX
        \<and> (\<forall>j<0. \<forall>m'. \<not> holds_line ?w (lines ! j) m')"
    by (simp add: lines_def holds_line_def cell_def)
  then have "\<exists>i<length lines. lines ! i = (0, 1, 2) \<and> holds_line ?w (0, 1, 2) MarkX
        \<and> (\<forall>j<i. \<forall>m'. \<not> holds_line ?w (lines ! j) m')"
    by blast
  with calculateWinner_outcome [of ?w MarkX "(0, 1, 2)"]
  have w: "calculateWinner ?w = Some (Win MarkX (0, 1, 2))"
    by simp
  have d: "calculateWinner ?d = Some Draw"
    by (simp add: calculateWinner_def lines_def cell_def)
  have p: "calculateWinner ?p = None"
    by (simp add: calculateWinner_def lines_def cell_def)
  from col w d p show ?thesis by simp
qed

section \<open>Tic Tac Toe: \<open>handleClick\<close>\<close>

text \<open>
  A click is ignored when the game on the screen is over or the square holds a
  mark: the closure that a click runs has read the current state.
\<close>

lemma js_assign_in_range: "idx < length b \<Longrightarrow> js_assign b idx v = b[idx := v]"
  by (simp add: js_assign_def)

lemma click_ignored:
  assumes "ttt_state.status s \<noteq> [] \<or> cell (board s) idx \<noteq> None"
  shows "click idx s = s"
proof -
  from assms have "cell (board s) idx \<noteq> None \<or> ttt_state.status s \<noteq> []"
    by blast
  then show ?thesis
    unfolding click_def handleClick_def by (rule if_P)
qed

text \<open>
  After an accepted click the mark of the player to move is on the square;
  the player to move flips when the game goes on and stays when it is over.
\<close>

lemma click_accepted_turn:
  assumes "ttt_state.status s = []" and "cell (board s) idx = None" and "idx < length (board s)"
  shows "board (click idx s) = (board s)[idx := Some (if xIsNext s then MarkX else MarkO)]
       \<and> click idx s \<noteq> s
       \<and> (calculateWinner (board (click idx s)) = None \<longrightarrow>
            xIsNext (click idx s) = (\<not> xIsNext s)
            \<and> ttt_state.status (click idx s) = [])
       \<and> (calculateWinner (board (click idx s)) \<noteq> None \<longrightarrow>
            xIsNext (click idx s) = xIsNext s
            \<and> ttt_state.status (click idx s) \<noteq> [])"
proof -
  let ?nb = "(board s)[idx := Some (if xIsNext s then MarkX else MarkO)]"
  have b: "board (click idx s) = ?nb"
    using assms
    by (simp add: click_def handleClick_def js_assign_in_range Let_def
        split: option.splits result.splits)
  from assms(2,3) have "board s ! idx = None" by (simp add: cell_def)
  moreover from assms(3) have "?nb ! idx \<noteq> None" by simp
  ultimately have "?nb \<noteq> board s" by metis
  with b have changed: "click idx s \<noteq> s" by metis
  have running: "calculateWinner ?nb = None \<longrightarrow>
            xIsNext (click idx s) = (\<not> xIsNext s)
            \<and> ttt_state.status (click idx s) = []"
    using assms by (simp add: click_def handleClick_def js_assign_in_range Let_def)
  have over: "calculateWinner ?nb \<noteq> None \<longrightarrow>
            xIsNext (click idx s) = xIsNext s
            \<and> ttt_state.status (click idx s) \<noteq> []"
    using assms
    by (auto simp: click_def handleClick_def js_assign_in_range Let_def
        split: option.splits result.splits)
  from b changed running over show ?thesis by simp
qed

lemmas ttt_eval = click_def handleClick_def js_assign_def calculateWinner_def lines_def
  cell_def mark_str_def Let_def

lemma empty_x_on_0: "empty_squares (board x_on_0) = [1, 2, 3, 4, 5, 6, 7, 8]"
  unfolding x_on_0_def by simp code_simp

lemma first_click_x_on_0: "click 0 (startNewGame Ai ttt_initial) = x_on_0"
  by (simp add: ttt_eval startNewGame_def ttt_initial_def x_on_0_def eval_nat_numeral)

lemma second_click_o_on_1: "click 1 x_on_0 = o_on_1"
  by (simp add: ttt_eval x_on_0_def o_on_1_def)

lemma late_timer_o_on_4: "makeAIMove 3 x_on_0 o_on_1 = late_o_on_4"
proof -
  have "makeAIMove 3 x_on_0 o_on_1 = handleClick 4 x_on_0 o_on_1"
    using empty_x_on_0 by (simp add: makeAIMove_def Let_def) (simp add: x_on_0_def)
  also have "\<dots> = late_o_on_4"
    by (simp add: ttt_eval x_on_0_def o_on_1_def late_o_on_4_def)
  finally show ?thesis .
qed


lemma empty_ai_to_move: "empty_squares (board ai_to_move) = [2, 5, 6, 7]"
  unfolding ai_to_move_def by simp code_simp

lemma play_to_ai_to_move:
  "click 8 (ai_reply 1 (click 1 (ai_reply 2 (click 0 (startNewGame Ai ttt_initial))))) = ai_to_move"
proof -
  let ?b1 = "[Some MarkX, None, None, Some MarkO, None, None, None, None, None]"
  let ?b2 = "[Some MarkX, Some MarkX, None, Some MarkO, None, None, None, None, None]"
  let ?b3 = "[Some MarkX, Some MarkX, None, Some MarkO, Some MarkO, None, None, None, None]"
  let ?s1 = "\<lparr>gameMode = Some Ai, board = ?b1, xIsNext = True, ttt_state.status = [],
              animWinLine = None\<rparr>"
  let ?s2 = "\<lparr>gameMode = Some Ai, board = ?b2, xIsNext = False, ttt_state.status = [],
              animWinLine = None\<rparr>"
  let ?s3 = "\<lparr>gameMode = Some Ai, board = ?b3, xIsNext = True, ttt_state.status = [],
              animWinLine = None\<rparr>"
  have e2: "empty_squares ?b2 = [2, 4, 5, 6, 7, 8]" by code_simp
  have a: "ai_reply 2 x_on_0 = ?s1"
    using empty_x_on_0
    by (simp add: ai_reply_def makeAIMove_def Let_def) (simp add: ttt_eval x_on_0_def)
  have b: "click 1 ?s1 = ?s2"
    by (simp add: ttt_eval)
  have c: "ai_reply 1 ?s2 = ?s3"
    using e2 by (simp add: ai_reply_def makeAIMove_def Let_def) (simp add: ttt_eval)
  have d: "click 8 ?s3 = ai_to_move"
    by (simp add: ttt_eval ai_to_move_def)
  show ?thesis
    by (simp only: first_click_x_on_0 a b c d)
qed

text \<open>
  C3. \<open>handleClick\<close> tests the \<open>board\<close> and \<open>status\<close> of the render that
  created it, and the timer of \<open>makeAIMove\<close> calls it 500 ms after that
  render, while every empty square stays enabled. In the game below the player
  clicks square 5 during that time and O wins (\<open>status\<close> is
  \<open>"O wins!"\<close>); the timer then calls \<open>handleClick(2)\<close>, whose guard
  passes on the old render, and the call is not ignored: the board is replaced
  by the old board with O on square 2 (the O on square 5 is gone) and
  \<open>xIsNext\<close> becomes true, in a game that is over.
\<close>

theorem late_timer_changes_finished_game:
  "click 8 (ai_reply 1 (click 1 (ai_reply 2 (click 0 (startNewGame Ai ttt_initial))))) = ai_to_move
   \<and> empty_squares (board ai_to_move) ! 0 = 2
   \<and> click 5 ai_to_move = o_has_won
   \<and> ttt_state.status o_has_won = ''O wins!''
   \<and> makeAIMove 0 ai_to_move o_has_won = late_o_on_2"
proof -
  have w: "click 5 ai_to_move = o_has_won"
    by (simp add: ttt_eval ai_to_move_def o_has_won_def)
  have "makeAIMove 0 ai_to_move o_has_won = handleClick 2 ai_to_move o_has_won"
    using empty_ai_to_move by (simp add: makeAIMove_def Let_def) (simp add: ai_to_move_def)
  also have "\<dots> = late_o_on_2"
    by (simp add: ttt_eval ai_to_move_def o_has_won_def late_o_on_2_def)
  finally have t: "makeAIMove 0 ai_to_move o_has_won = late_o_on_2" .
  from play_to_ai_to_move w t show ?thesis
    by (simp add: empty_ai_to_move) (simp add: o_has_won_def)
qed

text \<open>
  The state in which O has won is changed by the call.
\<close>

theorem late_timer_changes_finished_game_witness:
  "ttt_state.status o_has_won \<noteq> [] \<and> makeAIMove 0 ai_to_move o_has_won \<noteq> o_has_won"
  using late_timer_changes_finished_game
  by (simp add: o_has_won_def late_o_on_2_def)

text \<open>
  C8. From the same cause an accepted move that leaves the game in progress
  need not flip the player to move. After X on square 0 the player clicks
  square 1 while the timer of the computer runs (O on square 1, X is to move);
  the timer then calls the \<open>handleClick(4)\<close> of the old render: the board
  becomes the old board with O on square 4, so the state changes and the game
  is in progress, but \<open>xIsNext\<close> is set to the negation of the old value
  and X is still to move. The new board is not the current board with a mark
  put on square 4 either.
\<close>

theorem late_timer_keeps_player_to_move:
  "click 0 (startNewGame Ai ttt_initial) = x_on_0
   \<and> click 1 x_on_0 = o_on_1
   \<and> empty_squares (board x_on_0) ! 3 = 4
   \<and> makeAIMove 3 x_on_0 o_on_1 = late_o_on_4
   \<and> calculateWinner (board late_o_on_4) = None
   \<and> xIsNext o_on_1 = True \<and> xIsNext late_o_on_4 = True
   \<and> board late_o_on_4 \<noteq> (board o_on_1)[4 := Some MarkX]
   \<and> board late_o_on_4 \<noteq> (board o_on_1)[4 := Some MarkO]"
proof -
  have n: "calculateWinner (board late_o_on_4) = None"
    by (simp add: late_o_on_4_def calculateWinner_def lines_def cell_def)
  from first_click_x_on_0 second_click_o_on_1 late_timer_o_on_4 n show ?thesis
    by (simp add: empty_x_on_0) (simp add: o_on_1_def late_o_on_4_def)
qed

text \<open>
  The state is changed by the call, the game goes on, and the player to move
  is the same before and after.
\<close>

theorem late_timer_keeps_player_to_move_witness:
  "makeAIMove 3 x_on_0 o_on_1 \<noteq> o_on_1
   \<and> ttt_state.status (makeAIMove 3 x_on_0 o_on_1) = []
   \<and> xIsNext (makeAIMove 3 x_on_0 o_on_1) = xIsNext o_on_1"
  using late_timer_keeps_player_to_move
  by (simp add: o_on_1_def late_o_on_4_def)

section \<open>Snake and Ladder: the portal table and \<open>resolvePortals\<close>\<close>

text \<open>
  Every destination of the table is a cell from 1 to 99 that is no source, so a
  token is moved by at most one portal.
\<close>

lemma portal_target:
  assumes "BOARD_PORTALS p = Some q"
  shows "BOARD_PORTALS q = None \<and> q \<noteq> 0 \<and> 1 \<le> q \<and> q < 100 \<and> q \<noteq> p"
  using assms by (simp add: BOARD_PORTALS_def split: if_splits)

lemma portal_or_board:
  "portal_or BOARD_PORTALS p = (case BOARD_PORTALS p of None \<Rightarrow> p | Some q \<Rightarrow> q)"
  by (auto simp: portal_or_def split: option.splits dest: portal_target)

lemma resolvePortals_once:
  "resolvePortals p = (case BOARD_PORTALS p of None \<Rightarrow> p | Some q \<Rightarrow> q)"
proof (cases "BOARD_PORTALS p")
  case None
  then have "portal_or BOARD_PORTALS p = p" by (simp add: portal_or_board)
  then show ?thesis using None by (simp add: resolvePortals.simps [of p])
next
  case (Some q)
  then have step: "portal_or BOARD_PORTALS p = q" by (simp add: portal_or_board)
  from portal_target [OF Some] have "q \<noteq> p" and "portal_or BOARD_PORTALS q = q"
    by (simp_all add: portal_or_board)
  then show ?thesis using Some step
    by (simp add: resolvePortals.simps [of p] resolvePortals.simps [of q])
qed

lemma resolvePortals_no_source: "BOARD_PORTALS (resolvePortals p) = None"
  by (cases "BOARD_PORTALS p") (auto simp: resolvePortals_once dest: portal_target)

lemma resolvePortals_fixed: "BOARD_PORTALS p = None \<Longrightarrow> resolvePortals p = p"
  by (simp add: resolvePortals_once)

lemma resolvePortals_range:
  "1 \<le> p \<Longrightarrow> p \<le> 100 \<Longrightarrow> 1 \<le> resolvePortals p \<and> resolvePortals p \<le> 100"
  by (cases "BOARD_PORTALS p") (auto simp: resolvePortals_once dest: portal_target)

text \<open>
  C6. \<open>resolvePortals\<close> is idempotent: for every position, applying it to its
  own result gives that result again; and with the table of the component
  \<open>resolvePortals(43) = 17\<close> and \<open>resolvePortals(2) = 23\<close>.
\<close>

theorem resolvePortals_idempotent:
  "resolvePortals (resolvePortals p) = resolvePortals p
   \<and> resolvePortals 43 = 17 \<and> resolvePortals 2 = 23"
proof -
  have "resolvePortals (resolvePortals p) = resolvePortals p"
    by (rule resolvePortals_fixed) (rule resolvePortals_no_source)
  moreover have "resolvePortals 43 = 17" "resolvePortals 2 = 23"
    by (simp_all add: resolvePortals_once BOARD_PORTALS_def)
  ultimately show ?thesis by simp
qed

text \<open>
  On the table of the component the loop over a table is \<open>resolvePortals\<close>;
  over the table with the cycle 1, 2, 1 it does not return from 1.
\<close>

lemma loop_over_cycle:
  assumes ret: "resolvePortals_over t p = Some y"
  shows "t = cyclic_table \<longrightarrow> p \<noteq> 1 \<and> p \<noteq> 2"
proof (rule resolvePortals_over.raw_induct
    [where P = "\<lambda>t p y. t = cyclic_table \<longrightarrow> p \<noteq> 1 \<and> p \<noteq> 2", OF _ ret])
  fix f :: "(int \<rightharpoonup> int) \<Rightarrow> int \<Rightarrow> int option" and t p y
  assume IH: "\<And>t p y. f t p = Some y \<Longrightarrow> t = cyclic_table \<longrightarrow> p \<noteq> 1 \<and> p \<noteq> 2"
    and body: "(if p \<noteq> portal_or t p then f t (portal_or t p) else Some (portal_or t p)) = Some y"
  have s1: "portal_or cyclic_table 1 = 2" and s2: "portal_or cyclic_table 2 = 1"
    by (simp_all add: portal_or_def cyclic_table_def)
  show "t = cyclic_table \<longrightarrow> p \<noteq> 1 \<and> p \<noteq> 2"
  proof (intro impI conjI notI)
    assume "t = cyclic_table" "p = 1"
    with body s1 have "f cyclic_table 2 = Some y" by simp
    from IH [OF this] show False by simp
  next
    assume "t = cyclic_table" "p = 2"
    with body s2 have "f cyclic_table 1 = Some y" by simp
    from IH [OF this] show False by simp
  qed
qed

text \<open>
  C7 as stated fails on a table with a cycle. The loop of \<open>resolvePortals\<close>
  has no bound on its rounds and reports no error: started at 1 over a table
  that maps 1 to 2 and 2 to 1 it never returns.
\<close>

theorem cyclic_table_never_returns:
  "cyclic_table 1 = Some 2 \<and> cyclic_table 2 = Some 1
   \<and> resolvePortals_over cyclic_table 1 = None"
proof -
  have "resolvePortals_over cyclic_table 1 = None"
  proof (cases "resolvePortals_over cyclic_table 1")
    case (Some y)
    from loop_over_cycle [OF this] show ?thesis by simp
  qed simp
  then show ?thesis by (simp add: cyclic_table_def)
qed

text \<open>
  C7, as the code has it. With the portal table of the component
  \<open>resolvePortals\<close> returns for every position, after at most one portal: no
  destination of the table is a source. (The loop has no cap on its rounds and
  no error for a table with a cycle.)
\<close>

theorem resolvePortals_returns:
  "resolvePortals_over BOARD_PORTALS pos = Some (resolvePortals pos)
   \<and> resolvePortals pos = (case BOARD_PORTALS pos of None \<Rightarrow> pos | Some q \<Rightarrow> q)"
proof (cases "BOARD_PORTALS pos")
  case None
  then have "portal_or BOARD_PORTALS pos = pos" by (simp add: portal_or_board)
  then have "resolvePortals_over BOARD_PORTALS pos = Some pos"
    by (simp add: resolvePortals_over.simps [of BOARD_PORTALS pos])
  with None show ?thesis by (simp add: resolvePortals_once)
next
  case (Some q)
  then have step: "portal_or BOARD_PORTALS pos = q" by (simp add: portal_or_board)
  from portal_target [OF Some] have ne: "q \<noteq> pos" and stay: "portal_or BOARD_PORTALS q = q"
    by (simp_all add: portal_or_board)
  from stay have "resolvePortals_over BOARD_PORTALS q = Some q"
    by (simp add: resolvePortals_over.simps [of BOARD_PORTALS q])
  with step ne have "resolvePortals_over BOARD_PORTALS pos = Some q"
    by (simp add: resolvePortals_over.simps [of BOARD_PORTALS pos])
  with Some show ?thesis by (simp add: resolvePortals_once)
qed

section \<open>Snake and Ladder: a roll\<close>

lemma resolveRoll_fields:
  "positions (resolveRoll d s) =
     (positions s)[turn s := resolvePortals
        (if positions s ! turn s + d \<le> WIN_CELL then positions s ! turn s + d
         else positions s ! turn s)]"
  "turn (resolveRoll d s) = turn s"
  "rolling (resolveRoll d s) = False"
  "dice (resolveRoll d s) = Some d"
  "winner (resolveRoll d s) =
     (if resolvePortals
           (if positions s ! turn s + d \<le> WIN_CELL then positions s ! turn s + d
            else positions s ! turn s) = WIN_CELL
      then Some (turn s) else None)"
  by (simp_all add: resolveRoll_def Let_def)

lemma resolveRoll_own_position:
  assumes "turn s < length (positions s)"
  shows "positions (resolveRoll d s) ! turn s =
     resolvePortals (if positions s ! turn s + d \<le> WIN_CELL then positions s ! turn s + d
                     else positions s ! turn s)"
  using assms by (simp add: resolveRoll_fields)

lemma handleRollDice_positions: "positions (handleRollDice s) = positions s"
  and handleRollDice_turn: "turn (handleRollDice s) = turn s"
  by (simp_all add: handleRollDice_def)

lemma advanceTurn_positions: "positions (advanceTurn s) = positions s"
  by (simp add: advanceTurn_def)

lemma handleRollDice_blocked:
  "rolling s \<or> (\<exists>n. winner s = Some n \<and> n \<noteq> 0) \<Longrightarrow> handleRollDice s = s"
  by (auto simp: handleRollDice_def truthy_def)

text \<open>
  C1. The guard of \<open>handleRollDice\<close> tests \<open>state.winner\<close> for truthiness,
  and the index 0 of the first player is falsy. The rolls 5, 1, 6, 1, 6, 1, 4
  from the initial state take the first player to 100 (\<open>winner = 0\<close>); in that
  state a new roll is not ignored: \<open>rolling\<close> becomes true and \<open>dice\<close> is
  cleared. (While \<open>rolling\<close> is true, and after the second player has won,
  the roll is ignored: \<open>handleRollDice_blocked\<close>.)
\<close>

theorem roll_accepted_after_player_one_won:
  "foldl (\<lambda>s d. roll d s) initialState [5, 1, 6, 1, 6, 1, 4] =
     \<lparr>positions = [100, 25], turn = 0, rolling = False, dice = Some 4,
      status = ''Player 1 wins!'', winner = Some 0\<rparr>
   \<and> handleRollDice
       \<lparr>positions = [100, 25], turn = 0, rolling = False, dice = Some 4,
        status = ''Player 1 wins!'', winner = Some 0\<rparr> =
     \<lparr>positions = [100, 25], turn = 0, rolling = True, dice = None,
      status = ''Player 1 wins!'', winner = Some 0\<rparr>"
  by (simp add: roll_def handleRollDice_def resolveRoll_def advanceTurn_def initialState_def
      truthy_def Let_def resolvePortals_once BOARD_PORTALS_def WIN_CELL_def
      string_of_nat.simps digit_char_def)

lemma overshoot_no_source:
  assumes "turn s < length (positions s)"
    and "BOARD_PORTALS (positions s ! turn s) = None"
    and "positions s ! turn s + d > 100"
  shows "positions (resolveRoll d s) = positions s"
proof -
  from assms(3) have "resolvePortals (if positions s ! turn s + d \<le> WIN_CELL
      then positions s ! turn s + d else positions s ! turn s) = positions s ! turn s"
    by (simp add: WIN_CELL_def resolvePortals_fixed [OF assms(2)])
  then show ?thesis by (simp add: resolveRoll_fields)
qed

text \<open>
  C5. When the position after the roll is 100 the player to move is the
  winner and the turn does not advance; when it is below 100 no winner is set
  and the turn goes to the other player. A roll that lands on 100 stays there:
  100 has no portal.
\<close>

theorem winning_roll_and_turn:
  assumes "two_players s"
  shows "(positions (resolveRoll d s) ! turn s = 100 \<longrightarrow>
            winner (resolveRoll d s) = Some (turn s)
            \<and> advanceTurn (resolveRoll d s) = resolveRoll d s
            \<and> turn (advanceTurn (resolveRoll d s)) = turn s)
       \<and> (positions (resolveRoll d s) ! turn s < 100 \<longrightarrow>
            winner (resolveRoll d s) = None
            \<and> turn (advanceTurn (resolveRoll d s)) = (if turn s = 0 then 1 else 0)
            \<and> turn (advanceTurn (resolveRoll d s)) \<noteq> turn s
            \<and> turn (advanceTurn (resolveRoll d s)) < 2)
       \<and> (positions s ! turn s + d = 100 \<longrightarrow> positions (resolveRoll d s) ! turn s = 100)
       \<and> BOARD_PORTALS 100 = None \<and> resolvePortals 100 = 100"
proof -
  from assms have i: "turn s < length (positions s)" and t: "turn s < 2"
    by (simp_all add: two_players_def)
  have own: "positions (resolveRoll d s) ! turn s =
     resolvePortals (if positions s ! turn s + d \<le> WIN_CELL then positions s ! turn s + d
                     else positions s ! turn s)"
    by (rule resolveRoll_own_position [OF i])
  have no100: "BOARD_PORTALS 100 = None" by (simp add: BOARD_PORTALS_def)
  have fix100: "resolvePortals 100 = 100" by (simp add: resolvePortals_fixed no100)
  have win: "positions (resolveRoll d s) ! turn s = 100 \<longrightarrow>
            winner (resolveRoll d s) = Some (turn s)
            \<and> advanceTurn (resolveRoll d s) = resolveRoll d s
            \<and> turn (advanceTurn (resolveRoll d s)) = turn s"
    using own by (simp add: resolveRoll_fields advanceTurn_def WIN_CELL_def)
  have other: "positions (resolveRoll d s) ! turn s < 100 \<longrightarrow>
            winner (resolveRoll d s) = None
            \<and> turn (advanceTurn (resolveRoll d s)) = (if turn s = 0 then 1 else 0)
            \<and> turn (advanceTurn (resolveRoll d s)) \<noteq> turn s
            \<and> turn (advanceTurn (resolveRoll d s)) < 2"
    using own by (simp add: resolveRoll_fields advanceTurn_def WIN_CELL_def)
  have exact: "positions s ! turn s + d = 100 \<longrightarrow> positions (resolveRoll d s) ! turn s = 100"
    using own fix100 by (simp add: WIN_CELL_def)
  from win other exact no100 fix100 show ?thesis by blast
qed

text \<open>
  From 97 a roll of 3 wins and the turn stays; from 1 a roll of 3 moves to 4
  and the turn goes to the second player.
\<close>

theorem winning_roll_and_turn_witness:
  "two_players \<lparr>positions = [97, 1], turn = 0, rolling = True, dice = None, status = [],
                  winner = None\<rparr>
   \<and> positions (resolveRoll 3 \<lparr>positions = [97, 1], turn = 0, rolling = True, dice = None,
                                status = [], winner = None\<rparr>) ! 0 = 100
   \<and> winner (resolveRoll 3 \<lparr>positions = [97, 1], turn = 0, rolling = True, dice = None,
                               status = [], winner = None\<rparr>) = Some 0
   \<and> turn (advanceTurn (resolveRoll 3 \<lparr>positions = [97, 1], turn = 0, rolling = True,
                                         dice = None, status = [], winner = None\<rparr>)) = 0
   \<and> positions (resolveRoll 3 \<lparr>positions = [1, 97], turn = 0, rolling = True, dice = None,
                                status = [], winner = None\<rparr>) ! 0 = 4
   \<and> turn (advanceTurn (resolveRoll 3 \<lparr>positions = [1, 97], turn = 0, rolling = True,
                                         dice = None, status = [], winner = None\<rparr>)) = 1"
  using winning_roll_and_turn [of "\<lparr>positions = [97, 1], turn = 0, rolling = True,
      dice = None, status = [], winner = None\<rparr>" 3]
    winning_roll_and_turn [of "\<lparr>positions = [1, 97], turn = 0, rolling = True,
      dice = None, status = [], winner = None\<rparr>" 3]
  by (simp add: two_players_def resolveRoll_fields WIN_CELL_def resolvePortals_once
      BOARD_PORTALS_def)

text \<open>
  C10. A roll changes no entry of \<open>positions\<close> but the one of the player to
  move: every other entry is the same before and after the update of the
  roll, and before and after the three steps of a whole roll.
\<close>

theorem other_player_untouched:
  assumes "j \<noteq> turn s"
  shows "positions (resolveRoll d s) ! j = positions s ! j
         \<and> length (positions (resolveRoll d s)) = length (positions s)
         \<and> positions (roll d s) ! j = positions s ! j"
proof -
  have a: "positions (resolveRoll d s) ! j = positions s ! j"
    using assms by (simp add: resolveRoll_fields)
  have "j \<noteq> turn (handleRollDice s)"
    using assms by (simp add: handleRollDice_turn)
  then have "positions (resolveRoll d (handleRollDice s)) ! j = positions (handleRollDice s) ! j"
    by (simp add: resolveRoll_fields)
  then have "positions (roll d s) ! j = positions s ! j"
    by (simp add: roll_def advanceTurn_positions handleRollDice_positions)
  with a show ?thesis
    by (simp add: resolveRoll_fields)
qed

text \<open>
  The first player moves from 20 to 24; the second stays on 33.
\<close>

theorem other_player_untouched_witness:
  "(1::nat) \<noteq> turn \<lparr>positions = [20, 33], turn = 0, rolling = True, dice = None, status = [],
                       winner = None\<rparr>
   \<and> positions (resolveRoll 4 \<lparr>positions = [20, 33], turn = 0, rolling = True, dice = None,
                                status = [], winner = None\<rparr>) = [24, 33]
   \<and> positions (resolveRoll 4 \<lparr>positions = [20, 33], turn = 0, rolling = True, dice = None,
                                status = [], winner = None\<rparr>) ! 1 = 33"
  using other_player_untouched [of 1 "\<lparr>positions = [20, 33], turn = 0, rolling = True,
    dice = None, status = [], winner = None\<rparr>" 4]
  by (simp add: resolveRoll_fields WIN_CELL_def resolvePortals_once BOARD_PORTALS_def)

section \<open>Snake and Ladder: the positions of a reachable state\<close>

lemma resting_initialState: "resting initialState"
  by (simp add: resting_def initialState_def BOARD_PORTALS_def)

lemma resting_handleRollDice: "resting s \<Longrightarrow> resting (handleRollDice s)"
  by (simp add: resting_def handleRollDice_def)

lemma resting_advanceTurn: "resting s \<Longrightarrow> resting (advanceTurn s)"
  by (simp add: resting_def advanceTurn_def)

lemma resting_resolveRoll:
  assumes "resting s" and "1 \<le> d" and "d \<le> 6"
  shows "resting (resolveRoll d s)"
proof -
  let ?p = "positions s ! turn s"
  let ?c = "if ?p + d \<le> WIN_CELL then ?p + d else ?p"
  from assms(1) have len: "length (positions s) = 2" and t: "turn s < 2"
    and cells: "\<forall>p \<in> set (positions s). 1 \<le> p \<and> p \<le> 100 \<and> BOARD_PORTALS p = None"
    by (simp_all add: resting_def)
  from len t have "?p \<in> set (positions s)" by simp
  with cells have p: "1 \<le> ?p" "?p \<le> 100" by auto
  with assms(2) have c: "1 \<le> ?c" "?c \<le> 100" by (auto simp: WIN_CELL_def)
  have new: "1 \<le> resolvePortals ?c \<and> resolvePortals ?c \<le> 100
             \<and> BOARD_PORTALS (resolvePortals ?c) = None"
    using resolvePortals_range [OF c] resolvePortals_no_source [of ?c] by simp
  have "set ((positions s)[turn s := resolvePortals ?c])
          \<subseteq> insert (resolvePortals ?c) (set (positions s))"
    by (rule set_update_subset_insert)
  with new cells
  have "\<forall>p \<in> set ((positions s)[turn s := resolvePortals ?c]).
          1 \<le> p \<and> p \<le> 100 \<and> BOARD_PORTALS p = None"
    by blast
  with len t show ?thesis
    by (simp add: resting_def resolveRoll_fields)
qed

lemma reachable_resting: "reachable s \<Longrightarrow> resting s"
proof (induction rule: reachable.induct)
  case start
  show ?case by (rule resting_initialState)
next
  case (reset s)
  show ?case by (simp add: newGame_def resting_initialState)
next
  case (roll_started s)
  then show ?case by (simp add: resting_handleRollDice)
next
  case (roll_resolved s d)
  then show ?case by (simp add: resting_resolveRoll)
next
  case (turn_advanced s)
  then show ?case by (simp add: resting_advanceTurn)
qed

lemma reachable_roll:
  assumes "reachable s" and "1 \<le> d" and "d \<le> 6"
  shows "reachable (roll d s)"
  unfolding roll_def using assms
  by (auto intro: reachable.roll_started reachable.roll_resolved reachable.turn_advanced)

lemma reachable_rolls:
  assumes "reachable s" and "\<forall>d \<in> set ds. 1 \<le> d \<and> d \<le> 6"
  shows "reachable (foldl (\<lambda>s d. roll d s) s ds)"
  using assms by (induction ds arbitrary: s) (simp_all add: reachable_roll)

text \<open>
  C4. In every reachable state the position \<open>p\<close> of the player to move is a
  cell from 1 to 100, and when the roll would take it past 100
  (\<open>p + d > 100\<close>) the update of the roll leaves that position at \<open>p\<close>,
  and with it all positions: the move is discarded, not clamped to 100.
\<close>

theorem overshoot_keeps_position:
  assumes "reachable s" and "positions s ! turn s + d > 100"
  shows "1 \<le> positions s ! turn s \<and> positions s ! turn s \<le> 100
         \<and> positions (resolveRoll d s) ! turn s = positions s ! turn s
         \<and> positions (resolveRoll d s) = positions s"
proof -
  from reachable_resting [OF assms(1)]
  have len: "length (positions s) = 2" and t: "turn s < 2"
    and cells: "\<forall>p \<in> set (positions s). 1 \<le> p \<and> p \<le> 100 \<and> BOARD_PORTALS p = None"
    by (simp_all add: resting_def)
  from len t have i: "turn s < length (positions s)" by simp
  then have "positions s ! turn s \<in> set (positions s)" by simp
  with cells have p: "1 \<le> positions s ! turn s" "positions s ! turn s \<le> 100"
    "BOARD_PORTALS (positions s ! turn s) = None"
    by auto
  from overshoot_no_source [OF i p(3) assms(2)] p(1,2) show ?thesis by simp
qed

text \<open>
  The rolls 5, 1, 1, 1, 6, 1, 5, 1, 6, 1, 6, 1, 6, 1 from the initial state
  take the first player to 95 (the second to 29); a roll of 6 then leaves the
  first player on 95.
\<close>

theorem overshoot_keeps_position_witness:
  "reachable (foldl (\<lambda>s d. roll d s) initialState [5, 1, 1, 1, 6, 1, 5, 1, 6, 1, 6, 1, 6, 1])
   \<and> foldl (\<lambda>s d. roll d s) initialState [5, 1, 1, 1, 6, 1, 5, 1, 6, 1, 6, 1, 6, 1] =
       \<lparr>positions = [95, 29], turn = 0, rolling = False, dice = Some 1, status = [],
        winner = None\<rparr>
   \<and> (95::int) + 6 > 100
   \<and> positions (resolveRoll 6 \<lparr>positions = [95, 29], turn = 0, rolling = False, dice = Some 1,
                                status = [], winner = None\<rparr>) ! 0 = 95"
proof -
  let ?s = "foldl (\<lambda>s d. roll d s) initialState [5, 1, 1, 1, 6, 1, 5, 1, 6, 1, 6, 1, 6, 1]"
  have r: "reachable ?s"
    by (rule reachable_rolls [OF reachable.start]) simp
  have v: "?s = \<lparr>positions = [95, 29], turn = 0, rolling = False, dice = Some 1, status = [],
                winner = None\<rparr>"
    by (simp add: roll_def handleRollDice_def resolveRoll_def advanceTurn_def initialState_def
        truthy_def Let_def resolvePortals_once BOARD_PORTALS_def WIN_CELL_def)
  from overshoot_keeps_position [OF r, of 6] r v show ?thesis
    by simp
qed

text \<open>
  C9. In every state reachable from the initial state by resets and rolls
  there are two positions, each a cell from 1 to 100 that is no source of a
  portal, so \<open>resolvePortals\<close> leaves each of them where it is.
\<close>

theorem reachable_positions_rest:
  assumes "reachable s"
  shows "length (positions s) = 2
         \<and> (\<forall>p \<in> set (positions s).
               1 \<le> p \<and> p \<le> 100 \<and> BOARD_PORTALS p = None \<and> resolvePortals p = p)"
  using reachable_resting [OF assms]
  by (simp add: resting_def resolvePortals_fixed)

text \<open>
  After the first roll, a 1: the first player has climbed the ladder from 2
  to 23.
\<close>

theorem reachable_positions_rest_witness:
  "reachable (resolveRoll 1 (handleRollDice initialState))
   \<and> positions (resolveRoll 1 (handleRollDice initialState)) = [23, 1]
   \<and> BOARD_PORTALS 23 = None \<and> resolvePortals 23 = 23
   \<and> BOARD_PORTALS 1 = None \<and> resolvePortals 1 = 1"
proof -
  have r: "reachable (resolveRoll 1 (handleRollDice initialState))"
    by (intro reachable.roll_resolved reachable.roll_started reachable.start) simp_all
  have p: "positions (resolveRoll 1 (handleRollDice initialState)) = [23, 1]"
    by (simp add: resolveRoll_fields handleRollDice_def initialState_def truthy_def
        WIN_CELL_def resolvePortals_once BOARD_PORTALS_def)
  from reachable_positions_rest [OF r] p show ?thesis
    using r by simp
qed

end
